theory Spec2Isabelle
  imports Complex_Main
begin

section \<open>Values, errors and arrays\<close>

text \<open>
  The exceptions the modelled code raises, under their Python names. The specification
  speaks of \<open>UnsupportedOperationError\<close> where the code raises
  \<open>NotImplementedError\<close>, and of \<open>InvalidPermutationError\<close> where the code's
  \<open>assert\<close> raises \<open>AssertionError\<close>.
\<close>

datatype error =
    NotImplementedError
  | AssertionError
  | IndexError
  | ValueError
  | TypeError
  | ZeroDivisionError

text \<open>
  An array element. The three special values of the floating-point format are kept, with
  their arithmetic, because the block Jacobians hold \<open>-inf\<close>. Finite values are
  exact reals: the rounding, the overflow and the underflow of the machine format are not
  modelled, so an operation on finite values is the program's only where the format
  computes it exactly, as it does \<open>exp 0 = 1\<close>, \<open>log 1 = 0\<close> and sums and products
  of small integers. The statements below that evaluate \<open>logmatmulexp\<close> stay within
  such values.
\<close>

datatype fval = NInf | Fin real | PInf | NaN

fun fneg :: "fval \<Rightarrow> fval" where
  "fneg NInf = PInf"
| "fneg (Fin a) = Fin (- a)"
| "fneg PInf = NInf"
| "fneg NaN = NaN"

fun fadd :: "fval \<Rightarrow> fval \<Rightarrow> fval" where
  "fadd NaN v = NaN"
| "fadd v NaN = NaN"
| "fadd PInf NInf = NaN"
| "fadd NInf PInf = NaN"
| "fadd PInf v = PInf"
| "fadd v PInf = PInf"
| "fadd NInf v = NInf"
| "fadd v NInf = NInf"
| "fadd (Fin a) (Fin b) = Fin (a + b)"

definition fsub :: "fval \<Rightarrow> fval \<Rightarrow> fval" where
  "fsub u v = fadd u (fneg v)"

text \<open>The sign of a value: \<open>-1\<close>, \<open>0\<close> or \<open>1\<close> (\<open>NaN\<close> is handled before it is asked).\<close>

fun fsgn :: "fval \<Rightarrow> int" where
  "fsgn NInf = - 1"
| "fsgn PInf = 1"
| "fsgn (Fin a) = (if a < 0 then - 1 else if a = 0 then 0 else 1)"
| "fsgn NaN = 0"

fun fmul :: "fval \<Rightarrow> fval \<Rightarrow> fval" where
  "fmul NaN v = NaN"
| "fmul v NaN = NaN"
| "fmul (Fin a) (Fin b) = Fin (a * b)"
| "fmul u v =
     (if fsgn u * fsgn v = 0 then NaN else if fsgn u * fsgn v < 0 then NInf else PInf)"

fun fexp :: "fval \<Rightarrow> fval" where
  "fexp NInf = Fin 0"
| "fexp (Fin a) = Fin (exp a)"
| "fexp PInf = PInf"
| "fexp NaN = NaN"

fun flog :: "fval \<Rightarrow> fval" where
  "flog (Fin a) = (if a < 0 then NaN else if a = 0 then NInf else Fin (ln a))"
| "flog PInf = PInf"
| "flog NInf = NaN"
| "flog NaN = NaN"

text \<open>The maximum of two values as \<open>jnp.amax\<close> takes it: \<open>NaN\<close> propagates.\<close>

fun fmax :: "fval \<Rightarrow> fval \<Rightarrow> fval" where
  "fmax NaN v = NaN"
| "fmax v NaN = NaN"
| "fmax PInf v = PInf"
| "fmax v PInf = PInf"
| "fmax NInf v = v"
| "fmax v NInf = v"
| "fmax (Fin a) (Fin b) = Fin (max a b)"

text \<open>The sum of a list of values, from \<open>0\<close>.\<close>

definition fsum :: "fval list \<Rightarrow> fval" where
  "fsum vs = foldl fadd (Fin 0) vs"

type_synonym vec = "fval list"
type_synonym mat = "fval list list"
type_synonym arr3 = "fval list list list"

text \<open>
  A rank-3 array is the list of its blocks, a block the list of its rows. The arrays of
  the source are rectangular; \<open>shape3 n r c\<close> says so of a nested list. A nested list
  with an axis of length zero does not record the lengths of the axes under it: a block
  with no rows has lost its row length, and a shape check that the source makes on that
  length cannot be made on the list.
\<close>

definition is_mat :: "nat \<Rightarrow> nat \<Rightarrow> 'a list list \<Rightarrow> bool" where
  "is_mat r c m \<longleftrightarrow> length m = r \<and> list_all (\<lambda>row. length row = c) m"

definition shape3 :: "nat \<Rightarrow> nat \<Rightarrow> nat \<Rightarrow> 'a list list list \<Rightarrow> bool" where
  "shape3 n r c a \<longleftrightarrow> length a = n \<and> list_all (is_mat r c) a"

section \<open>Expanding per-unit log-derivatives into blocks\<close>

text \<open>\<open>jnp.full((n, d, d), v)\<close>.\<close>

definition full3 :: "nat \<Rightarrow> nat \<Rightarrow> 'a \<Rightarrow> 'a list list list" where
  "full3 n d v = replicate n (replicate d (replicate d v))"

text \<open>\<open>vals.reshape(n, d)\<close> of a flat vector of \<open>n * d\<close> values, row-major.\<close>

definition reshape2 :: "nat \<Rightarrow> nat \<Rightarrow> 'a list \<Rightarrow> 'a list list" where
  "reshape2 n d vals = map (\<lambda>b. take d (drop (b * d) vals)) [0..<n]"

text \<open>\<open>a.at[:, arange(d), arange(d)].set(v)\<close>: entry \<open>(b, i, i)\<close> becomes \<open>v[b, i]\<close>.\<close>

definition set_diagonals :: "nat \<Rightarrow> 'a list list list \<Rightarrow> 'a list list \<Rightarrow> 'a list list list" where
  "set_diagonals d a v =
     map (\<lambda>(blk, vrow). map (\<lambda>i. (blk ! i)[i := vrow ! i]) [0..<d]) (zip a v)"

text \<open>
  \<open>_3d_log_det(vals, n_blocks)\<close>. The integer division raises on \<open>n_blocks = 0\<close>, a
  negative dimension is refused by \<open>jnp.full\<close> with a \<open>TypeError\<close>, and \<open>reshape\<close>
  refuses a vector whose length is not \<open>n_blocks * d\<close>.
\<close>

definition log_det_3d :: "vec \<Rightarrow> int \<Rightarrow> error + arr3" where
  "log_det_3d vals n_blocks =
     (if n_blocks = 0 then Inl ZeroDivisionError
      else let d = int (length vals) div n_blocks in
        if n_blocks < 0 \<or> d < 0 then Inl TypeError
        else if n_blocks * d \<noteq> int (length vals) then Inl TypeError
        else Inr (set_diagonals (nat d) (full3 (nat n_blocks) (nat d) NInf)
                    (reshape2 (nat n_blocks) (nat d) vals)))"

section \<open>Permute and Flip\<close>

text \<open>
  Indexing an array by an integer array, \<open>x[idx]\<close>, as JAX does it: a negative index
  counts from the end, and an index out of bounds is clamped to the array. Reading from
  an empty array is refused with a \<open>TypeError\<close>.
\<close>

definition clamp_index :: "nat \<Rightarrow> int \<Rightarrow> nat" where
  "clamp_index n i = nat (max 0 (min (int n - 1) (if i < 0 then i + int n else i)))"

definition take_indices :: "'a list \<Rightarrow> int list \<Rightarrow> error + 'a list" where
  "take_indices x idx =
     (if x = [] \<and> idx \<noteq> [] then Inl TypeError
      else Inr (map (\<lambda>i. x ! clamp_index (length x) i) idx))"

text \<open>\<open>jnp.arange(n)\<close> and \<open>jnp.argsort\<close> (a stable sort of the positions by their keys).\<close>

definition arange :: "nat \<Rightarrow> int list" where
  "arange n = map int [0..<n]"

definition argsort :: "int list \<Rightarrow> int list" where
  "argsort p = map (int \<circ> snd) (sort_key fst (zip p [0..<length p]))"

record Permute =
  permutation :: "int list"
  inverse_permutation :: "int list"

text \<open>\<open>Permute.__init__\<close>: the assertion, then the two fields.\<close>

definition Permute_init :: "int list \<Rightarrow> error + Permute" where
  "Permute_init p =
     (if sort p = arange (length p)
      then Inr \<lparr>permutation = p, inverse_permutation = argsort p\<rparr>
      else Inl AssertionError)"

definition Permute_transform :: "Permute \<Rightarrow> vec \<Rightarrow> vec \<Rightarrow> error + vec" where
  "Permute_transform self x condition = take_indices x (permutation self)"

definition Permute_transform_and_log_abs_det_jacobian ::
    "Permute \<Rightarrow> vec \<Rightarrow> vec \<Rightarrow> error + vec \<times> fval" where
  "Permute_transform_and_log_abs_det_jacobian self x condition =
     (case take_indices x (permutation self) of
        Inl e \<Rightarrow> Inl e
      | Inr y \<Rightarrow> Inr (y, Fin 0))"

definition Permute_inverse :: "Permute \<Rightarrow> vec \<Rightarrow> vec \<Rightarrow> error + vec" where
  "Permute_inverse self y condition = take_indices y (inverse_permutation self)"

text \<open>\<open>Flip\<close> has no fields; \<open>jnp.flip\<close> of a vector reverses it.\<close>

definition Flip_transform :: "vec \<Rightarrow> vec \<Rightarrow> error + vec" where
  "Flip_transform x condition = Inr (rev x)"

definition Flip_transform_and_log_abs_det_jacobian :: "vec \<Rightarrow> vec \<Rightarrow> error + vec \<times> fval" where
  "Flip_transform_and_log_abs_det_jacobian x condition = Inr (rev x, Fin 0)"

definition Flip_inverse :: "vec \<Rightarrow> vec \<Rightarrow> error + vec" where
  "Flip_inverse y condition = Inr (rev y)"

text \<open>
  The specification's invariant on a permutation array: every index of \<open>[0, dim)\<close> is
  present exactly once.
\<close>

definition is_bijection_of_range :: "int list \<Rightarrow> bool" where
  "is_bijection_of_range p \<longleftrightarrow> distinct p \<and> set p = {0..<int (length p)}"

section \<open>Chain\<close>

text \<open>
  A bijection is an object with the three methods of the contract; a method returns its
  result or the exception it raised. \<open>inverse_bij\<close> is the method \<open>inverse\<close>.
\<close>

record Bijection =
  transform :: "vec \<Rightarrow> vec \<Rightarrow> error + vec"
  transform_and_log_abs_det_jacobian :: "vec \<Rightarrow> vec \<Rightarrow> error + vec \<times> fval"
  inverse_bij :: "vec \<Rightarrow> vec \<Rightarrow> error + vec"

record Chain =
  bijections :: "Bijection list"

text \<open>The loop of \<open>Chain.transform\<close>: \<open>z = bijection.transform(z, condition)\<close> for each
  child \<open>bijection\<close>.\<close>

fun Chain_transform_loop :: "Bijection list \<Rightarrow> vec \<Rightarrow> vec \<Rightarrow> error + vec" where
  "Chain_transform_loop [] z condition = Inr z"
| "Chain_transform_loop (child # rest) z condition =
     (case transform child z condition of
        Inl e \<Rightarrow> Inl e
      | Inr z' \<Rightarrow> Chain_transform_loop rest z' condition)"

definition Chain_transform :: "Chain \<Rightarrow> vec \<Rightarrow> vec \<Rightarrow> error + vec" where
  "Chain_transform self x condition = Chain_transform_loop (bijections self) x condition"

text \<open>
  The loop of \<open>Chain.transform_and_log_abs_det_jacobian\<close>, with the running sum
  \<open>log_abs_det_jac\<close>, which starts at \<open>0\<close>.
\<close>

fun Chain_tald_loop :: "Bijection list \<Rightarrow> fval \<Rightarrow> vec \<Rightarrow> vec \<Rightarrow> error + vec \<times> fval" where
  "Chain_tald_loop [] log_abs_det_jac z condition = Inr (z, log_abs_det_jac)"
| "Chain_tald_loop (child # rest) log_abs_det_jac z condition =
     (case transform_and_log_abs_det_jacobian child z condition of
        Inl e \<Rightarrow> Inl e
      | Inr (z', log_abs_det_jac_i) \<Rightarrow>
          Chain_tald_loop rest (fadd log_abs_det_jac log_abs_det_jac_i) z' condition)"

definition Chain_transform_and_log_abs_det_jacobian ::
    "Chain \<Rightarrow> vec \<Rightarrow> vec \<Rightarrow> error + vec \<times> fval" where
  "Chain_transform_and_log_abs_det_jacobian self x condition =
     Chain_tald_loop (bijections self) (Fin 0) x condition"

text \<open>The loop of \<open>Chain.inverse\<close>, which runs over \<open>reversed(self.bijections)\<close>.\<close>

fun Chain_inverse_loop :: "Bijection list \<Rightarrow> vec \<Rightarrow> vec \<Rightarrow> error + vec" where
  "Chain_inverse_loop [] x condition = Inr x"
| "Chain_inverse_loop (child # rest) x condition =
     (case inverse_bij child x condition of
        Inl e \<Rightarrow> Inl e
      | Inr x' \<Rightarrow> Chain_inverse_loop rest x' condition)"

definition Chain_inverse :: "Chain \<Rightarrow> vec \<Rightarrow> vec \<Rightarrow> error + vec" where
  "Chain_inverse self z condition = Chain_inverse_loop (rev (bijections self)) z condition"

text \<open>\<open>Permute\<close> and \<open>Flip\<close> as bijections, for use as children of a chain.\<close>

definition Permute_bijection :: "Permute \<Rightarrow> Bijection" where
  "Permute_bijection self =
     \<lparr>transform = Permute_transform self,
      transform_and_log_abs_det_jacobian = Permute_transform_and_log_abs_det_jacobian self,
      inverse_bij = Permute_inverse self\<rparr>"

definition Flip_bijection :: Bijection where
  "Flip_bijection =
     \<lparr>transform = Flip_transform,
      transform_and_log_abs_det_jacobian = Flip_transform_and_log_abs_det_jacobian,
      inverse_bij = Flip_inverse\<rparr>"

subsection \<open>The specification's reading of a chain\<close>

text \<open>Running a step on the result of the steps before it, unless one of them failed.\<close>

definition and_then :: "error + 'a \<Rightarrow> ('a \<Rightarrow> error + 'b) \<Rightarrow> error + 'b" where
  "and_then r f = (case r of Inl e \<Rightarrow> Inl e | Inr v \<Rightarrow> f v)"

text \<open>The children's transforms in sequence order, the first child first.\<close>

definition in_sequence_order :: "Bijection list \<Rightarrow> vec \<Rightarrow> vec \<Rightarrow> error + vec" where
  "in_sequence_order bs x c = foldl (\<lambda>r b. and_then r (\<lambda>z. transform b z c)) (Inr x) bs"

text \<open>The children's inverses in reverse order, the last child first.\<close>

definition in_reverse_order :: "Bijection list \<Rightarrow> vec \<Rightarrow> vec \<Rightarrow> error + vec" where
  "in_reverse_order bs y c = foldr (\<lambda>b r. and_then r (\<lambda>z. inverse_bij b z c)) bs (Inr y)"

text \<open>
  The children's log-determinants, each at the intermediate point that the children
  before it produce from \<open>x\<close>.
\<close>

fun child_log_dets :: "Bijection list \<Rightarrow> vec \<Rightarrow> vec \<Rightarrow> fval list" where
  "child_log_dets [] x c = []"
| "child_log_dets (b # bs) x c =
     snd (projr (transform_and_log_abs_det_jacobian b x c)) #
     child_log_dets bs (projr (transform b x c)) c"

text \<open>
  The contract of a bijection (section 4.1 of the specification): the point of
  \<open>transform_and_log_abs_det_jacobian\<close> is the point of \<open>transform\<close>, and the one
  fails exactly as the other does.
\<close>

definition point_consistent :: "Bijection \<Rightarrow> vec \<Rightarrow> bool" where
  "point_consistent b c \<longleftrightarrow>
     (\<forall>z. map_sum id fst (transform_and_log_abs_det_jacobian b z c) = transform b z c)"

section \<open>Log-domain matrix multiplication\<close>

text \<open>Applying a step that may fail to every element, stopping at the first failure.\<close>

primrec map_err :: "('a \<Rightarrow> error + 'b) \<Rightarrow> 'a list \<Rightarrow> error + 'b list" where
  "map_err f [] = Inr []"
| "map_err f (x # xs) =
     (case f x of
        Inl e \<Rightarrow> Inl e
      | Inr y \<Rightarrow> (case map_err f xs of Inl e \<Rightarrow> Inl e | Inr ys \<Rightarrow> Inr (y # ys)))"

text \<open>The maximum of a vector; a reduction over no element is refused.\<close>

fun amax :: "fval list \<Rightarrow> error + fval" where
  "amax [] = Inl ValueError"
| "amax (v # vs) = Inr (foldl fmax v vs)"

text \<open>The columns of a block.\<close>

definition cols :: "'a list list \<Rightarrow> 'a list list" where
  "cols m = (case m of [] \<Rightarrow> [] | r # _ \<Rightarrow> map (\<lambda>j. map (\<lambda>row. row ! j) m) [0..<length r])"

text \<open>
  \<open>jnp.amax(x, -1, keepdims=True)\<close>: one maximum for each row of each block, and
  \<open>jnp.amax(y, -2, keepdims=True)\<close>: one maximum for each column of each block.
\<close>

definition amax_last :: "arr3 \<Rightarrow> error + fval list list" where
  "amax_last x = map_err (map_err amax) x"

definition amax_rows :: "arr3 \<Rightarrow> error + fval list list" where
  "amax_rows y =
     map_err (\<lambda>blk. if blk = [] then Inl ValueError else map_err amax (cols blk)) y"

text \<open>\<open>jnp.exp(x - x_shift)\<close> and \<open>jnp.exp(y - y_shift)\<close>, the shift broadcast along each
  row of \<open>x\<close> and along each column of \<open>y\<close>.\<close>

definition exp_sub_rows :: "arr3 \<Rightarrow> fval list list \<Rightarrow> arr3" where
  "exp_sub_rows x x_shift =
     map2 (\<lambda>blk sh. map2 (\<lambda>row s. map (\<lambda>v. fexp (fsub v s)) row) blk sh) x x_shift"

definition exp_sub_cols :: "arr3 \<Rightarrow> fval list list \<Rightarrow> arr3" where
  "exp_sub_cols y y_shift =
     map2 (\<lambda>blk sh. map (\<lambda>row. map2 (\<lambda>v s. fexp (fsub v s)) row sh) blk) y y_shift"

text \<open>The product of two blocks.\<close>

definition dot :: "fval list \<Rightarrow> fval list \<Rightarrow> fval" where
  "dot r c = fsum (map2 fmul r c)"

definition matmul2 :: "mat \<Rightarrow> mat \<Rightarrow> mat" where
  "matmul2 a b = map (\<lambda>r. map (\<lambda>c. dot r c) (cols b)) a"

text \<open>
  \<open>jnp.matmul\<close> of two rank-3 arrays: the leading axis is the batch; a batch of one
  block is repeated to the length of the other, and two batches of other, different
  lengths are refused with a \<open>ValueError\<close>; the row length of the left block must be
  the number of rows of the right one, or the product is refused with a \<open>TypeError\<close>.
  A left block with no rows has no row length to check.
\<close>

definition batch_length :: "nat \<Rightarrow> nat \<Rightarrow> error + nat" where
  "batch_length m n =
     (if m = n then Inr m else if m = 1 then Inr n else if n = 1 then Inr m
      else Inl ValueError)"

definition broadcast_to :: "nat \<Rightarrow> 'a list \<Rightarrow> 'a list" where
  "broadcast_to n xs = (if length xs = 1 then replicate n (hd xs) else xs)"

definition matmul :: "arr3 \<Rightarrow> arr3 \<Rightarrow> error + arr3" where
  "matmul a b =
     (case batch_length (length a) (length b) of
        Inl e \<Rightarrow> Inl e
      | Inr n \<Rightarrow>
          let a' = broadcast_to n a; b' = broadcast_to n b in
          if list_ex (\<lambda>(ba, bb). list_ex (\<lambda>r. length r \<noteq> length bb) ba) (zip a' b')
          then Inl TypeError
          else Inr (map2 matmul2 a' b'))"

text \<open>\<open>xy + x_shift + y_shift\<close>, the shifts broadcast over the batch, the columns and
  the rows.\<close>

definition add_shifts :: "arr3 \<Rightarrow> fval list list \<Rightarrow> fval list list \<Rightarrow> arr3" where
  "add_shifts xy x_shift y_shift =
     map (\<lambda>(blk, sx, sy). map2 (\<lambda>row s. map2 (\<lambda>v t. fadd (fadd v s) t) row sy) blk sx)
       (zip xy (zip (broadcast_to (length xy) x_shift) (broadcast_to (length xy) y_shift)))"

text \<open>\<open>logmatmulexp(x, y)\<close>. \<open>stop_gradient\<close> leaves the value of its argument as it is.\<close>

definition logmatmulexp :: "arr3 \<Rightarrow> arr3 \<Rightarrow> error + arr3" where
  "logmatmulexp x y =
     (case amax_last x of
        Inl e \<Rightarrow> Inl e
      | Inr x_shift \<Rightarrow>
     (case amax_rows y of
        Inl e \<Rightarrow> Inl e
      | Inr y_shift \<Rightarrow>
     (case matmul (exp_sub_rows x x_shift) (exp_sub_cols y y_shift) of
        Inl e \<Rightarrow> Inl e
      | Inr m \<Rightarrow> Inr (add_shifts (map (map (map flog)) m) x_shift y_shift))))"

subsection \<open>The naive reference\<close>

text \<open>The reference of the specification: \<open>log(exp(x) @ exp(y))\<close>, block by block.\<close>

definition log_matmul_exp_reference :: "arr3 \<Rightarrow> arr3 \<Rightarrow> error + arr3" where
  "log_matmul_exp_reference x y =
     (case matmul (map (map (map fexp)) x) (map (map (map fexp)) y) of
        Inl e \<Rightarrow> Inl e
      | Inr m \<Rightarrow> Inr (map (map (map flog)) m))"

section \<open>The block autoregressive network\<close>

text \<open>
  A layer of the network is a masked linear layer, built from a key, the number of
  blocks, the block shape and the number of conditioning inputs, or an activation. The
  default activation is \<open>_TanhBNAF(n_blocks)\<close>; any other callable may be given. The type
  of keys is a parameter.
\<close>

datatype activation =
    TanhBNAF int
  | Callable "vec \<Rightarrow> vec option \<Rightarrow> error + vec \<times> arr3"

datatype 'k layer =
    BlockAutoregressiveLinear 'k int "int \<times> int" int
  | Activation activation

record 'k BlockAutoregressiveNetwork =
  dim :: int
  depth :: int
  layers :: "'k layer list"
  cond_dim :: int
  block_dim :: int
  activation :: activation

text \<open>
  \<open>BlockAutoregressiveNetwork.__init__\<close>. \<open>split\<close> is \<open>jax.random.split\<close>. Python's
  \<open>[v] * k\<close> is the empty list for \<open>k \<le> 0\<close>, \<open>zip\<close> stops with its shortest argument,
  and \<open>layers[:-1]\<close> drops the last element.
\<close>

definition BlockAutoregressiveNetwork_init ::
    "('k \<Rightarrow> int \<Rightarrow> 'k list) \<Rightarrow> 'k \<Rightarrow> int \<Rightarrow> int \<Rightarrow> int \<Rightarrow> int \<Rightarrow> activation option \<Rightarrow>
     'k BlockAutoregressiveNetwork" where
  "BlockAutoregressiveNetwork_init split key dim' cond_dim' depth' block_dim' activation' =
     (let act = (case activation' of None \<Rightarrow> TanhBNAF dim' | Some a \<Rightarrow> a);
          ls =
            (if depth' = 0 then [BlockAutoregressiveLinear key dim' (1, 1) cond_dim']
             else
               let keys = split key (depth' + 1);
                   block_shapes =
                     [(block_dim', 1)] @ replicate (nat (depth' - 1)) (block_dim', block_dim')
                       @ [(1, block_dim')];
                   cond_dims = [cond_dim'] @ replicate (nat depth') 0
               in butlast (concat (map
                    (\<lambda>(k, block_shape, cd).
                       [BlockAutoregressiveLinear k dim' block_shape cd, Activation act])
                    (zip keys (zip block_shapes cond_dims)))))
      in \<lparr>dim = dim', depth = depth', layers = ls, cond_dim = cond_dim',
          block_dim = block_dim', activation = act\<rparr>)"

text \<open>\<open>jnp.tanh\<close> of a value.\<close>

fun ftanh :: "fval \<Rightarrow> fval" where
  "ftanh NInf = Fin (- 1)"
| "ftanh (Fin a) = Fin (tanh a)"
| "ftanh PInf = Fin 1"
| "ftanh NaN = NaN"

text \<open>
  Calling a layer on a point and a condition gives the new point and the layer's block
  Jacobian. The call of a masked linear layer (\<open>linear_call\<close>) and the function
  \<open>_tanh_log_grad\<close> (\<open>tanh_log_grad\<close>) are defined outside the files at hand and are
  parameters here.
\<close>

fun call_layer ::
    "('k \<Rightarrow> int \<Rightarrow> int \<times> int \<Rightarrow> int \<Rightarrow> vec \<Rightarrow> vec option \<Rightarrow> error + vec \<times> arr3) \<Rightarrow>
     (vec \<Rightarrow> vec) \<Rightarrow> 'k layer \<Rightarrow> vec \<Rightarrow> vec option \<Rightarrow> error + vec \<times> arr3" where
  "call_layer linear_call tanh_log_grad (BlockAutoregressiveLinear k n block_shape cd) x condition =
     linear_call k n block_shape cd x condition"
| "call_layer linear_call tanh_log_grad (Activation (TanhBNAF n_blocks)) x condition =
     (case log_det_3d (tanh_log_grad x) n_blocks of
        Inl e \<Rightarrow> Inl e
      | Inr jac \<Rightarrow> Inr (map ftanh x, jac))"
| "call_layer linear_call tanh_log_grad (Activation (Callable f)) x condition = f x condition"

text \<open>The loop of \<open>transform\<close>: \<open>x = layer(x)[0]\<close> over \<open>self.layers[1:]\<close>.\<close>

fun transform_loop ::
    "('k \<Rightarrow> int \<Rightarrow> int \<times> int \<Rightarrow> int \<Rightarrow> vec \<Rightarrow> vec option \<Rightarrow> error + vec \<times> arr3) \<Rightarrow>
     (vec \<Rightarrow> vec) \<Rightarrow> 'k layer list \<Rightarrow> vec \<Rightarrow> error + vec" where
  "transform_loop linear_call tanh_log_grad [] x = Inr x"
| "transform_loop linear_call tanh_log_grad (layer # rest) x =
     (case call_layer linear_call tanh_log_grad layer x None of
        Inl e \<Rightarrow> Inl e
      | Inr (x', jac) \<Rightarrow> transform_loop linear_call tanh_log_grad rest x')"

definition BlockAutoregressiveNetwork_transform ::
    "('k \<Rightarrow> int \<Rightarrow> int \<times> int \<Rightarrow> int \<Rightarrow> vec \<Rightarrow> vec option \<Rightarrow> error + vec \<times> arr3) \<Rightarrow>
     (vec \<Rightarrow> vec) \<Rightarrow> 'k BlockAutoregressiveNetwork \<Rightarrow> vec \<Rightarrow> vec option \<Rightarrow> error + vec" where
  "BlockAutoregressiveNetwork_transform linear_call tanh_log_grad self x condition =
     (case layers self of
        [] \<Rightarrow> Inl IndexError
      | layer0 # rest \<Rightarrow>
          (case call_layer linear_call tanh_log_grad layer0 x condition of
             Inl e \<Rightarrow> Inl e
           | Inr (x', jac) \<Rightarrow> transform_loop linear_call tanh_log_grad rest x'))"

text \<open>The first loop of \<open>transform_and_log_abs_det_jacobian\<close>, which appends each
  layer's Jacobian to \<open>log_det_3ds\<close>.\<close>

fun log_det_3ds_loop ::
    "('k \<Rightarrow> int \<Rightarrow> int \<times> int \<Rightarrow> int \<Rightarrow> vec \<Rightarrow> vec option \<Rightarrow> error + vec \<times> arr3) \<Rightarrow>
     (vec \<Rightarrow> vec) \<Rightarrow> 'k layer list \<Rightarrow> vec \<Rightarrow> arr3 list \<Rightarrow> error + vec \<times> arr3 list" where
  "log_det_3ds_loop linear_call tanh_log_grad [] x log_det_3ds = Inr (x, log_det_3ds)"
| "log_det_3ds_loop linear_call tanh_log_grad (layer # rest) x log_det_3ds =
     (case call_layer linear_call tanh_log_grad layer x None of
        Inl e \<Rightarrow> Inl e
      | Inr (x', log_det_3d_i) \<Rightarrow>
          log_det_3ds_loop linear_call tanh_log_grad rest x' (log_det_3ds @ [log_det_3d_i]))"

text \<open>The second loop: \<open>logdet = logmatmulexp(logdet, ld)\<close> over the list it is given.\<close>

fun logdet_loop :: "arr3 \<Rightarrow> arr3 list \<Rightarrow> error + arr3" where
  "logdet_loop logdet [] = Inr logdet"
| "logdet_loop logdet (ld # rest) =
     (case logmatmulexp logdet ld of
        Inl e \<Rightarrow> Inl e
      | Inr logdet' \<Rightarrow> logdet_loop logdet' rest)"

text \<open>\<open>a.sum()\<close>: the sum of all entries of a rank-3 array.\<close>

definition sum3 :: "arr3 \<Rightarrow> fval" where
  "sum3 a = fsum (concat (concat a))"

definition BlockAutoregressiveNetwork_transform_and_log_abs_det_jacobian ::
    "('k \<Rightarrow> int \<Rightarrow> int \<times> int \<Rightarrow> int \<Rightarrow> vec \<Rightarrow> vec option \<Rightarrow> error + vec \<times> arr3) \<Rightarrow>
     (vec \<Rightarrow> vec) \<Rightarrow> 'k BlockAutoregressiveNetwork \<Rightarrow> vec \<Rightarrow> vec option \<Rightarrow>
     error + vec \<times> fval" where
  "BlockAutoregressiveNetwork_transform_and_log_abs_det_jacobian linear_call tanh_log_grad self x
       condition =
     (case layers self of
        [] \<Rightarrow> Inl IndexError
      | layer0 # rest \<Rightarrow>
          (case call_layer linear_call tanh_log_grad layer0 x condition of
             Inl e \<Rightarrow> Inl e
           | Inr (x0, log_det_3d_0) \<Rightarrow>
               (case log_det_3ds_loop linear_call tanh_log_grad rest x0 [log_det_3d_0] of
                  Inl e \<Rightarrow> Inl e
                | Inr (x', log_det_3ds) \<Rightarrow>
                    (case logdet_loop (last log_det_3ds) (rev (butlast log_det_3ds)) of
                       Inl e \<Rightarrow> Inl e
                     | Inr logdet \<Rightarrow> Inr (x', sum3 logdet)))))"

text \<open>
  \<open>inverse\<close> and \<open>inverse_and_log_abs_det_jacobian\<close> take any arguments (the positional
  ones and the keyword ones) and raise. The instance as it is after the call is returned
  beside the outcome.
\<close>

definition BlockAutoregressiveNetwork_inverse ::
    "'k BlockAutoregressiveNetwork \<Rightarrow> vec list \<Rightarrow> (string \<times> vec) list \<Rightarrow>
     (error + vec) \<times> 'k BlockAutoregressiveNetwork" where
  "BlockAutoregressiveNetwork_inverse self args kwargs = (Inl NotImplementedError, self)"

definition BlockAutoregressiveNetwork_inverse_and_log_abs_det_jacobian ::
    "'k BlockAutoregressiveNetwork \<Rightarrow> vec list \<Rightarrow> (string \<times> vec) list \<Rightarrow>
     (error + vec \<times> fval) \<times> 'k BlockAutoregressiveNetwork" where
  "BlockAutoregressiveNetwork_inverse_and_log_abs_det_jacobian self args kwargs =
     (Inl NotImplementedError, self)"

subsection \<open>The specification's reading of the log-determinant\<close>

text \<open>
  The forward pass in which every layer also returns its block Jacobian: the first layer
  gets the condition, the others none.
\<close>

fun forward_pass ::
    "('k \<Rightarrow> int \<Rightarrow> int \<times> int \<Rightarrow> int \<Rightarrow> vec \<Rightarrow> vec option \<Rightarrow> error + vec \<times> arr3) \<Rightarrow>
     (vec \<Rightarrow> vec) \<Rightarrow> 'k layer list \<Rightarrow> vec \<Rightarrow> vec option \<Rightarrow> error + vec \<times> arr3 list" where
  "forward_pass linear_call tanh_log_grad [] x condition = Inr (x, [])"
| "forward_pass linear_call tanh_log_grad (layer # rest) x condition =
     (case call_layer linear_call tanh_log_grad layer x condition of
        Inl e \<Rightarrow> Inl e
      | Inr (x', jac) \<Rightarrow>
          (case forward_pass linear_call tanh_log_grad rest x' None of
             Inl e \<Rightarrow> Inl e
           | Inr (x'', jacs) \<Rightarrow> Inr (x'', jac # jacs)))"

text \<open>
  The fold from the right: the last layer's Jacobian first, each earlier layer composed
  into the running result by \<open>compose_log\<close>, which is \<open>logmatmulexp\<close>.
\<close>

definition fold_right_to_left :: "arr3 list \<Rightarrow> error + arr3" where
  "fold_right_to_left jacs =
     foldr (\<lambda>jac running. and_then running (\<lambda>r. logmatmulexp r jac))
       (butlast jacs) (Inr (last jacs))"

text \<open>The per-layer block Jacobians of a forward pass that succeeds.\<close>

definition per_layer_jacobians ::
    "('k \<Rightarrow> int \<Rightarrow> int \<times> int \<Rightarrow> int \<Rightarrow> vec \<Rightarrow> vec option \<Rightarrow> error + vec \<times> arr3) \<Rightarrow>
     (vec \<Rightarrow> vec) \<Rightarrow> 'k layer list \<Rightarrow> vec \<Rightarrow> vec option \<Rightarrow> arr3 list" where
  "per_layer_jacobians linear_call tanh_log_grad ls x condition =
     snd (projr (forward_pass linear_call tanh_log_grad ls x condition))"

section \<open>Permutations: construction and round trip\<close>

lemma set_arange: "set (arange n) = {0..<int n}"
proof -
  have "\<And>x. 0 \<le> x \<Longrightarrow> x < int n \<Longrightarrow> x \<in> int ` {0..<n}"
  proof -
    fix x :: int
    assume "0 \<le> x" "x < int n"
    then have "x = int (nat x)" "nat x \<in> {0..<n}" by auto
    then show "x \<in> int ` {0..<n}" by blast
  qed
  then show ?thesis unfolding arange_def by auto
qed

lemma distinct_arange: "distinct (arange n)"
  unfolding arange_def by (simp add: distinct_map inj_on_def)

lemma sorted_arange: "sorted (arange n)"
  unfolding arange_def by (simp add: sorted_map sorted_wrt_iff_nth_less)

lemma sort_arange_iff: "sort p = arange (length p) \<longleftrightarrow> is_bijection_of_range p"
proof
  assume h: "sort p = arange (length p)"
  have "set p = set (sort p)" by simp
  also have "\<dots> = {0..<int (length p)}" unfolding h by (rule set_arange)
  finally have s: "set p = {0..<int (length p)}" .
  have "distinct (sort p)" unfolding h by (rule distinct_arange)
  then have "distinct p" by simp
  with s show "is_bijection_of_range p" by (simp add: is_bijection_of_range_def)
next
  assume "is_bijection_of_range p"
  then have d: "distinct p" and s: "set p = {0..<int (length p)}"
    by (simp_all add: is_bijection_of_range_def)
  have "sorted (arange (length p))" by (rule sorted_arange)
  moreover have "distinct (arange (length p))" by (rule distinct_arange)
  moreover have "set (arange (length p)) = set (sort p)" using s by (simp add: set_arange)
  ultimately show "sort p = arange (length p)"
    using d by (intro sorted_distinct_set_unique) simp_all
qed

lemma is_bijection_of_range_201: "is_bijection_of_range [2, 0, 1]"
  unfolding sort_arange_iff [symmetric] by (simp add: arange_def upt_rec)

lemma not_is_bijection_of_range_001: "\<not> is_bijection_of_range [0, 0, 1]"
  by (simp add: is_bijection_of_range_def)

lemma argsort_201: "argsort [2, 0, 1] = [1, 2, 0]"
  by (simp add: argsort_def upt_rec)

text \<open>
  C5. Constructing a \<open>Permute\<close> from an index array that is not a bijection of
  \<open>[0, dim)\<close> fails with the assertion's error (the specification's
  \<open>InvalidPermutationError\<close>); from a bijection of the range it succeeds and gives the
  instance that holds the array.
\<close>

theorem Permute_init_validates:
  "(is_bijection_of_range p \<longrightarrow>
      Permute_init p = Inr \<lparr>permutation = p, inverse_permutation = argsort p\<rparr>) \<and>
   (\<not> is_bijection_of_range p \<longrightarrow> Permute_init p = Inl AssertionError)"
  by (simp add: Permute_init_def sort_arange_iff)

theorem Permute_init_validates_witness:
  "Permute_init [2, 0, 1] = Inr \<lparr>permutation = [2, 0, 1], inverse_permutation = [1, 2, 0]\<rparr> \<and>
   Permute_init [0, 0, 1] = Inl AssertionError"
proof -
  have "Permute_init [2, 0, 1] =
      Inr \<lparr>permutation = [2, 0, 1], inverse_permutation = argsort [2, 0, 1]\<rparr>"
    using Permute_init_validates [of "[2, 0, 1]"] is_bijection_of_range_201 by blast
  moreover have "Permute_init [0, 0, 1] = Inl AssertionError"
    using Permute_init_validates [of "[0, 0, 1]"] not_is_bijection_of_range_001 by blast
  ultimately show ?thesis by (simp add: argsort_201)
qed

lemma map_insort_key: "map f (insort_key f x xs) = insort (f x) (map f xs)"
  by (induction xs) simp_all

lemma map_sort_key: "map f (sort_key f xs) = sort (map f xs)"
  by (induction xs) (simp_all add: map_insort_key)

lemma length_argsort: "length (argsort p) = length p"
  by (simp add: argsort_def)

text \<open>Position \<open>j\<close> of \<open>argsort p\<close> is the position at which \<open>p\<close> holds \<open>j\<close>.\<close>

lemma argsort_nth:
  assumes v: "sort p = arange (length p)" and j: "j < length p"
  shows "\<exists>i < length p. argsort p ! j = int i \<and> p ! i = int j"
proof -
  define s where "s = sort_key fst (zip p [0..<length p])"
  have len: "length s = length p" by (simp add: s_def)
  have "map fst s = sort (map fst (zip p [0..<length p]))"
    unfolding s_def by (rule map_sort_key)
  then have "map fst s = arange (length p)" using v by simp
  then have "map fst s ! j = arange (length p) ! j" by simp
  then have f: "fst (s ! j) = int j" using j len by (simp add: arange_def)
  have "s ! j \<in> set s" using j len by simp
  then have "s ! j \<in> set (zip p [0..<length p])" by (simp add: s_def)
  then obtain i where i: "i < length p" "s ! j = (p ! i, i)"
    by (auto simp: set_zip)
  have "argsort p ! j = int (snd (s ! j))" using j len by (simp add: argsort_def s_def)
  with i f show ?thesis by auto
qed

lemma clamp_index_in_range: "i < n \<Longrightarrow> clamp_index n (int i) = i"
  by (simp add: clamp_index_def)

lemma take_indices_Inr:
  "length x = n \<Longrightarrow> length idx = n \<Longrightarrow>
   take_indices x idx = Inr (map (\<lambda>i. x ! clamp_index n i) idx)"
  by (auto simp: take_indices_def)

lemma take_indices_argsort:
  assumes v: "sort p = arange (length p)" and l: "length x = length p"
  shows "take_indices (map (\<lambda>i. x ! clamp_index (length p) i) p) (argsort p) = Inr x"
proof -
  let ?n = "length p"
  let ?y = "map (\<lambda>i. x ! clamp_index ?n i) p"
  have "map (\<lambda>i. ?y ! clamp_index ?n i) (argsort p) = x"
  proof (rule nth_equalityI)
    show "length (map (\<lambda>i. ?y ! clamp_index ?n i) (argsort p)) = length x"
      using l by (simp add: length_argsort)
  next
    fix j
    assume "j < length (map (\<lambda>i. ?y ! clamp_index ?n i) (argsort p))"
    then have j: "j < ?n" by (simp add: length_argsort)
    obtain i where i: "i < ?n" "argsort p ! j = int i" "p ! i = int j"
      using argsort_nth [OF v j] by blast
    have "map (\<lambda>i. ?y ! clamp_index ?n i) (argsort p) ! j = ?y ! clamp_index ?n (int i)"
      using j i by (simp add: length_argsort)
    also have "\<dots> = ?y ! i" using i by (simp add: clamp_index_in_range)
    also have "\<dots> = x ! clamp_index ?n (int j)" using i by simp
    also have "\<dots> = x ! j" using j by (simp add: clamp_index_in_range)
    finally show "map (\<lambda>i. ?y ! clamp_index ?n i) (argsort p) ! j = x ! j" .
  qed
  moreover have "take_indices ?y (argsort p) =
      Inr (map (\<lambda>i. ?y ! clamp_index ?n i) (argsort p))"
    by (rule take_indices_Inr) (simp_all add: length_argsort)
  ultimately show ?thesis by simp
qed

text \<open>
  C6. For a valid permutation array \<open>p\<close> and a vector \<open>x\<close> of its length, the instance
  that the construction gives holds \<open>argsort p\<close> as its inverse permutation, and its
  \<open>inverse\<close> takes the result of its \<open>transform\<close> back to \<open>x\<close>. \<open>Permute([2,0,1])\<close> maps
  \<open>[a,b,c]\<close> to \<open>[c,a,b]\<close>, and its inverse maps \<open>[c,a,b]\<close> to \<open>[a,b,c]\<close>.
\<close>

theorem Permute_inverse_transform:
  "(is_bijection_of_range p \<and> length x = length p \<longrightarrow>
      (\<exists>self y. Permute_init p = Inr self \<and> inverse_permutation self = argsort p \<and>
         Permute_transform self x cond = Inr y \<and> Permute_inverse self y cond = Inr x)) \<and>
   (\<exists>self. Permute_init [2, 0, 1] = Inr self \<and>
      Permute_transform self [a, b, c] cond = Inr [c, a, b] \<and>
      Permute_inverse self [c, a, b] cond = Inr [a, b, c])"
proof (intro conjI impI)
  assume h: "is_bijection_of_range p \<and> length x = length p"
  then have v: "sort p = arange (length p)" and l: "length x = length p"
    by (simp_all add: sort_arange_iff)
  let ?self = "\<lparr>permutation = p, inverse_permutation = argsort p\<rparr>"
  let ?y = "map (\<lambda>i. x ! clamp_index (length p) i) p"
  have "Permute_init p = Inr ?self" using v by (simp add: Permute_init_def)
  moreover have "Permute_transform ?self x cond = Inr ?y"
    using l by (simp add: Permute_transform_def take_indices_Inr)
  moreover have "Permute_inverse ?self ?y cond = Inr x"
    using take_indices_argsort [OF v l] by (simp add: Permute_inverse_def)
  ultimately show "\<exists>self y. Permute_init p = Inr self \<and>
      inverse_permutation self = argsort p \<and>
      Permute_transform self x cond = Inr y \<and> Permute_inverse self y cond = Inr x"
    by simp
next
  show "\<exists>self. Permute_init [2, 0, 1] = Inr self \<and>
      Permute_transform self [a, b, c] cond = Inr [c, a, b] \<and>
      Permute_inverse self [c, a, b] cond = Inr [a, b, c]"
    by (simp add: Permute_init_def arange_def argsort_def upt_rec Permute_transform_def
        Permute_inverse_def take_indices_def clamp_index_def)
qed

theorem Permute_inverse_transform_witness:
  "\<exists>self y. Permute_init [1, 2, 0] = Inr self \<and> inverse_permutation self = argsort [1, 2, 0] \<and>
     Permute_transform self [Fin 5, Fin 6, Fin 7] [] = Inr y \<and>
     Permute_inverse self y [] = Inr [Fin 5, Fin 6, Fin 7]"
proof -
  have "is_bijection_of_range [1, 2, 0]"
    unfolding sort_arange_iff [symmetric] by (simp add: arange_def upt_rec)
  moreover have "length [Fin 5, Fin 6, Fin 7] = length [1, 2, 0 :: int]" by simp
  ultimately show ?thesis
    using Permute_inverse_transform [of "[1, 2, 0]" "[Fin 5, Fin 6, Fin 7]" "[]"] by blast
qed

section \<open>The condition of a permutation and of a flip\<close>

text \<open>
  C10. The condition never influences \<open>Permute\<close> or \<open>Flip\<close>: each of \<open>transform\<close>,
  \<open>inverse\<close> and \<open>transform_and_log_abs_det_jacobian\<close> gives the same outcome under any
  two conditions.
\<close>

theorem Permute_Flip_ignore_condition:
  "Permute_transform self x c1 = Permute_transform self x c2 \<and>
   Permute_inverse self x c1 = Permute_inverse self x c2 \<and>
   Permute_transform_and_log_abs_det_jacobian self x c1 =
     Permute_transform_and_log_abs_det_jacobian self x c2 \<and>
   Flip_transform x c1 = Flip_transform x c2 \<and>
   Flip_inverse x c1 = Flip_inverse x c2 \<and>
   Flip_transform_and_log_abs_det_jacobian x c1 = Flip_transform_and_log_abs_det_jacobian x c2"
  by (simp add: Permute_transform_def Permute_inverse_def
      Permute_transform_and_log_abs_det_jacobian_def Flip_transform_def Flip_inverse_def
      Flip_transform_and_log_abs_det_jacobian_def)

section \<open>The network has no inverse\<close>

text \<open>
  C4. On every instance and for all arguments, \<open>inverse\<close> and
  \<open>inverse_and_log_abs_det_jacobian\<close> fail with \<open>NotImplementedError\<close> (the
  specification's \<open>UnsupportedOperationError\<close>), and the instance after the call is the
  instance before it.
\<close>

theorem BlockAutoregressiveNetwork_inverse_raises:
  "BlockAutoregressiveNetwork_inverse self args kwargs = (Inl NotImplementedError, self) \<and>
   BlockAutoregressiveNetwork_inverse_and_log_abs_det_jacobian self args kwargs =
     (Inl NotImplementedError, self)"
  by (simp add: BlockAutoregressiveNetwork_inverse_def
      BlockAutoregressiveNetwork_inverse_and_log_abs_det_jacobian_def)

section \<open>The block-diagonal expansion\<close>

lemma log_det_3d_Inr:
  assumes "0 < n" "length vals = nat n * d"
  shows "log_det_3d vals n =
    Inr (set_diagonals d (full3 (nat n) d NInf) (reshape2 (nat n) d vals))"
proof -
  have "int (length vals) = n * int d" using assms by simp
  then have "int (length vals) div n = int d" using assms(1) by simp
  then show ?thesis using assms by (simp add: log_det_3d_def Let_def)
qed

lemma nth_set_diagonals:
  assumes "b < n"
  shows "set_diagonals d (full3 n d v) (reshape2 n d vals) ! b =
    map (\<lambda>i. (replicate d v)[i := take d (drop (b * d) vals) ! i]) [0..<d]"
  using assms by (simp add: set_diagonals_def full3_def reshape2_def)

lemma entry_set_diagonals:
  assumes "b < n" "i < d" "j < d" "length vals = n * d"
  shows "set_diagonals d (full3 n d v) (reshape2 n d vals) ! b ! i ! j =
    (if i = j then vals ! (b * d + i) else v)"
proof -
  have "b * d + d \<le> n * d"
  proof -
    have "Suc b \<le> n" using assms(1) by simp
    then have "Suc b * d \<le> n * d" by (rule mult_le_mono1)
    then show ?thesis by (simp add: add.commute)
  qed
  then have "b * d + i < length vals" using assms by simp
  then have "take d (drop (b * d) vals) ! i = vals ! (b * d + i)"
    using assms by simp
  then show ?thesis using assms by (simp add: nth_set_diagonals nth_list_update)
qed

lemma shape3_set_diagonals:
  "shape3 n d d (set_diagonals d (full3 n d v) (reshape2 n d vals))"
  by (simp add: shape3_def is_mat_def list_all_iff set_diagonals_def full3_def reshape2_def
      set_zip) auto

text \<open>
  C9. For a flat vector of \<open>n_blocks * d\<close> values (with at least one block),
  \<open>_3d_log_det\<close> returns an array of shape \<open>(n_blocks, d, d)\<close> whose entry \<open>(b, i, i)\<close> is
  value \<open>b * d + i\<close> of the vector and whose every other entry is \<open>-inf\<close>.
\<close>

theorem log_det_3d_block_diagonal:
  assumes "0 < n_blocks" "length vals = nat n_blocks * d"
  shows "\<exists>a. log_det_3d vals n_blocks = Inr a \<and> shape3 (nat n_blocks) d d a \<and>
    (\<forall>b i j. b < nat n_blocks \<and> i < d \<and> j < d \<longrightarrow>
       a ! b ! i ! j = (if i = j then vals ! (b * d + i) else NInf))"
  using assms
  by (simp add: log_det_3d_Inr shape3_set_diagonals entry_set_diagonals)

theorem log_det_3d_block_diagonal_witness:
  "log_det_3d [Fin 1, Fin 2, Fin 3, Fin 4] 2 =
     Inr [[[Fin 1, NInf], [NInf, Fin 2]], [[Fin 3, NInf], [NInf, Fin 4]]] \<and>
   shape3 2 2 2 [[[Fin 1, NInf], [NInf, Fin 2]], [[Fin 3, NInf], [NInf, Fin 4 :: fval]]]"
proof -
  have h: "(0::int) < 2" "length [Fin 1, Fin 2, Fin 3, Fin 4] = nat 2 * 2" by simp_all
  obtain a where a: "log_det_3d [Fin 1, Fin 2, Fin 3, Fin 4] 2 = Inr a" "shape3 (nat 2) 2 2 a"
    using log_det_3d_block_diagonal [OF h] by blast
  have "log_det_3d [Fin 1, Fin 2, Fin 3, Fin 4] 2 =
      Inr [[[Fin 1, NInf], [NInf, Fin 2]], [[Fin 3, NInf], [NInf, Fin 4]]]"
    by (simp add: log_det_3d_def set_diagonals_def full3_def reshape2_def upt_rec
        numeral_2_eq_2)
  with a show ?thesis by simp
qed

section \<open>The layers of a constructed network\<close>

lemma length_concat_pairs: "length (concat (map (\<lambda>t. [f t, g t]) ts)) = 2 * length ts"
  by (induction ts) simp_all

lemma nth_concat_pairs:
  "j < length ts \<Longrightarrow>
   concat (map (\<lambda>t. [f t, g t]) ts) ! (2 * j) = f (ts ! j) \<and>
   concat (map (\<lambda>t. [f t, g t]) ts) ! (2 * j + 1) = g (ts ! j)"
proof (induction ts arbitrary: j)
  case Nil
  then show ?case by simp
next
  case (Cons t ts)
  show ?case
  proof (cases j)
    case 0
    then show ?thesis by simp
  next
    case (Suc k)
    then have "k < length ts" using Cons.prems by simp
    from Cons.IH [OF this] show ?thesis using Suc by simp
  qed
qed

lemma block_shapes_nth:
  assumes "0 < n" "j \<le> n"
  shows "([(bd, 1)] @ replicate (n - 1) (bd, bd) @ [(1, bd)]) ! j =
    (if j = 0 then (bd, 1) else if j = n then (1, bd) else (bd, bd :: int))"
proof (cases "j = 0")
  case True
  then show ?thesis by simp
next
  case False
  then obtain k where k: "j = Suc k" by (cases j) auto
  show ?thesis
  proof (cases "j = n")
    case True
    then have "k = n - 1" using k by simp
    then show ?thesis using k True by (simp add: nth_append)
  next
    case False
    then have "k < n - 1" using k assms by simp
    then show ?thesis using k False by (simp add: nth_append)
  qed
qed

lemma cond_dims_nth:
  assumes "j \<le> n"
  shows "([cd] @ replicate n 0) ! j = (if j = 0 then cd else (0::int))"
  using assms by (cases j) simp_all

text \<open>
  C8. With \<open>depth = 0\<close> the network has one masked linear layer, of block shape \<open>(1,1)\<close>
  and with \<open>cond_dim\<close> conditioning inputs. With \<open>depth > 0\<close> (and \<open>split\<close> giving the
  \<open>depth + 1\<close> keys it is asked for) the list of layers has \<open>2 * depth + 1\<close> elements: at
  each even position \<open>2 * j\<close>, \<open>j \<le> depth\<close>, the masked linear layer of key \<open>j\<close>, of block
  shape \<open>(block_dim, 1)\<close> for \<open>j = 0\<close>, \<open>(1, block_dim)\<close> for \<open>j = depth\<close> and
  \<open>(block_dim, block_dim)\<close> between, with \<open>cond_dim\<close> conditioning inputs for \<open>j = 0\<close>
  and none after; at each odd position the activation. So there are \<open>depth + 1\<close> masked
  linear layers, and an activation after each of them but the last.
\<close>

theorem BlockAutoregressiveNetwork_init_layers:
  "(layers (BlockAutoregressiveNetwork_init split (key :: 'k) d cd 0 bd act) =
      [BlockAutoregressiveLinear key d (1, 1) cd]) \<and>
   (0 < dp \<and> length (split key (dp + 1)) = nat (dp + 1) \<longrightarrow>
      length (layers (BlockAutoregressiveNetwork_init split key d cd dp bd act)) =
        2 * nat dp + 1 \<and>
      (\<forall>j. j \<le> nat dp \<longrightarrow>
         layers (BlockAutoregressiveNetwork_init split key d cd dp bd act) ! (2 * j) =
           BlockAutoregressiveLinear (split key (dp + 1) ! j) d
             (if j = 0 then (bd, 1) else if j = nat dp then (1, bd) else (bd, bd))
             (if j = 0 then cd else 0)) \<and>
      (\<forall>j. j < nat dp \<longrightarrow>
         layers (BlockAutoregressiveNetwork_init split key d cd dp bd act) ! (2 * j + 1) =
           Activation (case act of None \<Rightarrow> TanhBNAF d | Some a \<Rightarrow> a)))"
proof (intro conjI impI)
  show "layers (BlockAutoregressiveNetwork_init split key d cd 0 bd act) =
      [BlockAutoregressiveLinear key d (1, 1) cd]"
    by (simp add: BlockAutoregressiveNetwork_init_def)
next
  assume h: "0 < dp \<and> length (split key (dp + 1)) = nat (dp + 1)"
  define n where "n = nat dp"
  define a where "a = (case act of None \<Rightarrow> TanhBNAF d | Some a \<Rightarrow> a)"
  define shapes where "shapes = [(bd, 1)] @ replicate (n - 1) (bd, bd) @ [(1, bd)]"
  define conds where "conds = [cd] @ replicate n (0::int)"
  define ts where "ts = zip (split key (dp + 1)) (zip shapes conds)"
  define f where
    "f = (\<lambda>(k :: 'k, block_shape, c). BlockAutoregressiveLinear k d block_shape c)"
  define g where "g = (\<lambda>t :: 'k \<times> (int \<times> int) \<times> int. (Activation a :: 'k layer))"
  have n: "0 < n" "nat (dp + 1) = Suc n" "nat (dp - 1) = n - 1"
    using h by (simp_all add: n_def nat_add_distrib nat_diff_distrib)
  have lsh: "length shapes = Suc n" "length conds = Suc n"
    using n by (simp_all add: shapes_def conds_def)
  have lts: "length ts = Suc n" using h n lsh by (simp add: ts_def)
  have pairs:
    "(\<lambda>(k :: 'k, block_shape, c). [BlockAutoregressiveLinear k d block_shape c, Activation a])
      = (\<lambda>t. [f t, g t])"
    by (auto simp: f_def g_def)
  have ls: "layers (BlockAutoregressiveNetwork_init split key d cd dp bd act) =
      butlast (concat (map (\<lambda>t. [f t, g t]) ts))"
    using h n unfolding pairs [symmetric]
    by (simp add: BlockAutoregressiveNetwork_init_def Let_def a_def ts_def shapes_def
        conds_def n_def)
  show "length (layers (BlockAutoregressiveNetwork_init split key d cd dp bd act)) =
      2 * nat dp + 1"
    by (simp add: ls length_concat_pairs lts n_def)
  have tsj: "ts ! j = (split key (dp + 1) ! j,
      (if j = 0 then (bd, 1) else if j = n then (1, bd) else (bd, bd)),
      (if j = 0 then cd else 0))" if "j \<le> n" for j
  proof -
    have "ts ! j = (split key (dp + 1) ! j, shapes ! j, conds ! j)"
      using that h n lsh by (simp add: ts_def)
    then show ?thesis
      using block_shapes_nth [OF n(1) that, of bd] cond_dims_nth [OF that, of cd]
      by (simp add: shapes_def conds_def)
  qed
  show "\<forall>j. j \<le> nat dp \<longrightarrow>
      layers (BlockAutoregressiveNetwork_init split key d cd dp bd act) ! (2 * j) =
        BlockAutoregressiveLinear (split key (dp + 1) ! j) d
          (if j = 0 then (bd, 1) else if j = nat dp then (1, bd) else (bd, bd))
          (if j = 0 then cd else 0)"
  proof (intro allI impI)
    fix j
    assume "j \<le> nat dp"
    then have j: "j \<le> n" by (simp add: n_def)
    then have "2 * j < length (butlast (concat (map (\<lambda>t. [f t, g t]) ts)))"
      by (simp add: length_concat_pairs lts)
    then have "butlast (concat (map (\<lambda>t. [f t, g t]) ts)) ! (2 * j) =
        concat (map (\<lambda>t. [f t, g t]) ts) ! (2 * j)"
      by (simp add: nth_butlast)
    also have "\<dots> = f (ts ! j)" using nth_concat_pairs [of j ts f g] j lts by simp
    finally show "layers (BlockAutoregressiveNetwork_init split key d cd dp bd act) ! (2 * j) =
        BlockAutoregressiveLinear (split key (dp + 1) ! j) d
          (if j = 0 then (bd, 1) else if j = nat dp then (1, bd) else (bd, bd))
          (if j = 0 then cd else 0)"
      using tsj [OF j] by (simp add: ls f_def n_def)
  qed
  show "\<forall>j. j < nat dp \<longrightarrow>
      layers (BlockAutoregressiveNetwork_init split key d cd dp bd act) ! (2 * j + 1) =
        Activation (case act of None \<Rightarrow> TanhBNAF d | Some a \<Rightarrow> a)"
  proof (intro allI impI)
    fix j
    assume "j < nat dp"
    then have j: "j < n" by (simp add: n_def)
    then have "2 * j + 1 < length (butlast (concat (map (\<lambda>t. [f t, g t]) ts)))"
      by (simp add: length_concat_pairs lts)
    then have "butlast (concat (map (\<lambda>t. [f t, g t]) ts)) ! (2 * j + 1) =
        concat (map (\<lambda>t. [f t, g t]) ts) ! (2 * j + 1)"
      by (simp add: nth_butlast)
    also have "\<dots> = g (ts ! j)" using nth_concat_pairs [of j ts f g] j lts by simp
    finally show
      "layers (BlockAutoregressiveNetwork_init split key d cd dp bd act) ! (2 * j + 1) =
        Activation (case act of None \<Rightarrow> TanhBNAF d | Some a \<Rightarrow> a)"
      by (simp add: ls g_def a_def)
  qed
qed

theorem BlockAutoregressiveNetwork_init_layers_witness:
  "layers (BlockAutoregressiveNetwork_init (\<lambda>k n. map (\<lambda>i. k + i) [0..<nat n])
       (10::nat) 3 1 0 4 None) =
     [BlockAutoregressiveLinear 10 3 (1, 1) 1] \<and>
   length (layers (BlockAutoregressiveNetwork_init (\<lambda>k n. map (\<lambda>i. k + i) [0..<nat n])
       (10::nat) 3 1 2 4 None)) = 5 \<and>
   layers (BlockAutoregressiveNetwork_init (\<lambda>k n. map (\<lambda>i. k + i) [0..<nat n])
       (10::nat) 3 1 2 4 None) ! 0 = BlockAutoregressiveLinear 10 3 (4, 1) 1 \<and>
   layers (BlockAutoregressiveNetwork_init (\<lambda>k n. map (\<lambda>i. k + i) [0..<nat n])
       (10::nat) 3 1 2 4 None) ! 1 = Activation (TanhBNAF 3) \<and>
   layers (BlockAutoregressiveNetwork_init (\<lambda>k n. map (\<lambda>i. k + i) [0..<nat n])
       (10::nat) 3 1 2 4 None) ! 2 = BlockAutoregressiveLinear 11 3 (4, 4) 0 \<and>
   layers (BlockAutoregressiveNetwork_init (\<lambda>k n. map (\<lambda>i. k + i) [0..<nat n])
       (10::nat) 3 1 2 4 None) ! 3 = Activation (TanhBNAF 3) \<and>
   layers (BlockAutoregressiveNetwork_init (\<lambda>k n. map (\<lambda>i. k + i) [0..<nat n])
       (10::nat) 3 1 2 4 None) ! 4 = BlockAutoregressiveLinear 12 3 (1, 4) 0"
proof -
  let ?split = "\<lambda>(k::nat) (n::int). map (\<lambda>i. k + i) [0..<nat n]"
  have h: "(0::int) < 2 \<and> length (?split 10 (2 + 1)) = nat (2 + 1)" by simp
  note t = BlockAutoregressiveNetwork_init_layers [of ?split 10 3 1 4 None 2]
  note t0 = t [THEN conjunct1]
  note t2 = t [THEN conjunct2, rule_format, OF h]
  note len = t2 [THEN conjunct1]
  note lin = t2 [THEN conjunct2, THEN conjunct1, rule_format]
  note act = t2 [THEN conjunct2, THEN conjunct2, rule_format]
  have k: "?split 10 (2 + 1) = [10, 11, 12]" by (simp add: upt_rec)
  show ?thesis
    using t0 len lin [of 0] lin [of 1] lin [of 2] act [of 0] act [of 1]
    by (simp add: k)
qed

section \<open>Chains\<close>

lemma and_then_simps:
  "and_then (Inl e) f = Inl e"
  "and_then (Inr v) f = f v"
  by (simp_all add: and_then_def)

lemma foldl_and_then_Inl: "foldl (\<lambda>r b. and_then r (f b)) (Inl e) bs = Inl e"
  by (induction bs) (simp_all add: and_then_simps)

lemma Chain_transform_loop_foldl:
  "Chain_transform_loop bs z c = foldl (\<lambda>r b. and_then r (\<lambda>z. transform b z c)) (Inr z) bs"
proof (induction bs arbitrary: z)
  case Nil
  then show ?case by simp
next
  case (Cons b bs)
  show ?case
  proof (cases "transform b z c")
    case (Inl e)
    then show ?thesis by (simp add: and_then_simps foldl_and_then_Inl)
  next
    case (Inr z')
    then show ?thesis using Cons.IH [of z'] by (simp add: and_then_simps)
  qed
qed

lemma Chain_inverse_loop_foldl:
  "Chain_inverse_loop bs z c = foldl (\<lambda>r b. and_then r (\<lambda>z. inverse_bij b z c)) (Inr z) bs"
proof (induction bs arbitrary: z)
  case Nil
  then show ?case by simp
next
  case (Cons b bs)
  show ?case
  proof (cases "inverse_bij b z c")
    case (Inl e)
    then show ?thesis by (simp add: and_then_simps foldl_and_then_Inl)
  next
    case (Inr z')
    then show ?thesis using Cons.IH [of z'] by (simp add: and_then_simps)
  qed
qed

text \<open>The loop with the running sum, for children that keep the contract.\<close>

lemma Chain_tald_loop_char:
  assumes "list_all (\<lambda>b. point_consistent b c) bs"
  shows "Chain_tald_loop bs acc z c =
    (case Chain_transform_loop bs z c of
       Inl e \<Rightarrow> Inl e
     | Inr y \<Rightarrow> Inr (y, foldl fadd acc (child_log_dets bs z c)))"
  using assms
proof (induction bs arbitrary: acc z)
  case Nil
  then show ?case by simp
next
  case (Cons b bs)
  then have pc: "map_sum id fst (transform_and_log_abs_det_jacobian b z c) = transform b z c"
    and rest: "list_all (\<lambda>b. point_consistent b c) bs"
    by (simp_all add: point_consistent_def)
  show ?case
  proof (cases "transform_and_log_abs_det_jacobian b z c")
    case (Inl e)
    then have "transform b z c = Inl e" using pc by simp
    then show ?thesis using Inl by simp
  next
    case (Inr r)
    obtain z' l where r: "r = (z', l)" by (cases r)
    have "transform b z c = Inr z'" using pc Inr r by simp
    then show ?thesis using Inr r Cons.IH [OF rest, of "fadd acc l" z']
      by (simp split: sum.split)
  qed
qed

lemma point_consistent_Flip: "point_consistent Flip_bijection c"
  by (simp add: point_consistent_def Flip_bijection_def Flip_transform_def
      Flip_transform_and_log_abs_det_jacobian_def)

lemma point_consistent_Permute: "point_consistent (Permute_bijection p) c"
  by (simp add: point_consistent_def Permute_bijection_def Permute_transform_def
      Permute_transform_and_log_abs_det_jacobian_def split: sum.split)

text \<open>
  C3. For a chain whose children keep the contract of a bijection under the condition
  \<open>c\<close>: \<open>transform\<close> applies the children's transforms in sequence order, \<open>inverse\<close>
  applies the children's inverses in reverse order, and
  \<open>transform_and_log_abs_det_jacobian\<close> returns the point of \<open>transform\<close> (and fails as
  it does) with the sum of the children's log-determinants, each taken at the
  intermediate point that the children before it produce.
\<close>

theorem Chain_order_and_log_det:
  assumes "list_all (\<lambda>b. point_consistent b c) (bijections self)"
  shows "Chain_transform self x c = in_sequence_order (bijections self) x c \<and>
    Chain_inverse self z c = in_reverse_order (bijections self) z c \<and>
    Chain_transform_and_log_abs_det_jacobian self x c =
      (case Chain_transform self x c of
         Inl e \<Rightarrow> Inl e
       | Inr y \<Rightarrow> Inr (y, fsum (child_log_dets (bijections self) x c)))"
proof (intro conjI)
  show "Chain_transform self x c = in_sequence_order (bijections self) x c"
    by (simp add: Chain_transform_def in_sequence_order_def Chain_transform_loop_foldl)
  show "Chain_inverse self z c = in_reverse_order (bijections self) z c"
    by (simp add: Chain_inverse_def in_reverse_order_def Chain_inverse_loop_foldl
        foldr_conv_foldl)
  show "Chain_transform_and_log_abs_det_jacobian self x c =
      (case Chain_transform self x c of
         Inl e \<Rightarrow> Inl e
       | Inr y \<Rightarrow> Inr (y, fsum (child_log_dets (bijections self) x c)))"
    using Chain_tald_loop_char [OF assms, of "Fin 0" x]
    by (simp add: Chain_transform_and_log_abs_det_jacobian_def Chain_transform_def fsum_def
        split: sum.split)
qed

theorem Chain_order_and_log_det_witness:
  "Chain_transform \<lparr>bijections = [Flip_bijection,
       Permute_bijection \<lparr>permutation = [2, 0, 1], inverse_permutation = [1, 2, 0]\<rparr>]\<rparr>
     [Fin 1, Fin 2, Fin 3] [] = Inr [Fin 1, Fin 3, Fin 2] \<and>
   Chain_inverse \<lparr>bijections = [Flip_bijection,
       Permute_bijection \<lparr>permutation = [2, 0, 1], inverse_permutation = [1, 2, 0]\<rparr>]\<rparr>
     [Fin 1, Fin 3, Fin 2] [] = Inr [Fin 1, Fin 2, Fin 3] \<and>
   Chain_transform_and_log_abs_det_jacobian \<lparr>bijections = [Flip_bijection,
       Permute_bijection \<lparr>permutation = [2, 0, 1], inverse_permutation = [1, 2, 0]\<rparr>]\<rparr>
     [Fin 1, Fin 2, Fin 3] [] = Inr ([Fin 1, Fin 3, Fin 2], Fin 0)"
proof -
  let ?c = "\<lparr>bijections = [Flip_bijection,
       Permute_bijection \<lparr>permutation = [2, 0, 1], inverse_permutation = [1, 2, 0]\<rparr>]\<rparr>"
  have h: "list_all (\<lambda>b. point_consistent b []) (bijections ?c)"
    by (simp add: point_consistent_Flip point_consistent_Permute)
  show ?thesis
    using Chain_order_and_log_det [OF h, of "[Fin 1, Fin 2, Fin 3]" "[Fin 1, Fin 3, Fin 2]"]
    by (simp add: in_sequence_order_def in_reverse_order_def and_then_def fsum_def
        Flip_bijection_def Permute_bijection_def Flip_transform_def Flip_inverse_def
        Flip_transform_and_log_abs_det_jacobian_def Permute_transform_def Permute_inverse_def
        Permute_transform_and_log_abs_det_jacobian_def take_indices_def clamp_index_def)
qed

section \<open>The log-determinant of the network\<close>

lemma transform_loop_forward_pass:
  "transform_loop lin tlg ls x = map_sum id fst (forward_pass lin tlg ls x None)"
proof (induction ls arbitrary: x)
  case Nil
  then show ?case by simp
next
  case (Cons l ls)
  then show ?case by (simp split: sum.split prod.split)
qed

lemma log_det_3ds_loop_forward_pass:
  "log_det_3ds_loop lin tlg ls x acc =
    (case forward_pass lin tlg ls x None of
       Inl e \<Rightarrow> Inl e
     | Inr (y, jacs) \<Rightarrow> Inr (y, acc @ jacs))"
proof (induction ls arbitrary: x acc)
  case Nil
  then show ?case by simp
next
  case (Cons l ls)
  then show ?case by (simp split: sum.split prod.split)
qed

lemma logdet_loop_foldl:
  "logdet_loop a ks = foldl (\<lambda>r jac. and_then r (\<lambda>r. logmatmulexp r jac)) (Inr a) ks"
proof (induction ks arbitrary: a)
  case Nil
  then show ?case by simp
next
  case (Cons k ks)
  show ?case
  proof (cases "logmatmulexp a k")
    case (Inl e)
    then show ?thesis by (simp add: and_then_simps foldl_and_then_Inl)
  next
    case (Inr a')
    then show ?thesis using Cons.IH [of a'] by (simp add: and_then_simps)
  qed
qed

lemma logdet_loop_fold_right_to_left:
  "jacs \<noteq> [] \<Longrightarrow> logdet_loop (last jacs) (rev (butlast jacs)) = fold_right_to_left jacs"
  by (simp add: fold_right_to_left_def logdet_loop_foldl foldr_conv_foldl)

text \<open>
  C2. \<open>transform\<close> returns the point of the forward pass through the layers. Whenever
  \<open>transform\<close> returns a point, \<open>transform_and_log_abs_det_jacobian\<close> returns that same
  point, with the sum of all entries of the fold from the right of the per-layer block
  Jacobians under \<open>logmatmulexp\<close>, provided that fold succeeds; it fails as \<open>transform\<close>
  does when \<open>transform\<close> fails, and as the fold does when the fold fails.
\<close>

theorem BlockAutoregressiveNetwork_log_det:
  "BlockAutoregressiveNetwork_transform lin tlg self x c =
     (if layers self = [] then Inl IndexError
      else map_sum id fst (forward_pass lin tlg (layers self) x c)) \<and>
   BlockAutoregressiveNetwork_transform_and_log_abs_det_jacobian lin tlg self x c =
     (case BlockAutoregressiveNetwork_transform lin tlg self x c of
        Inl e \<Rightarrow> Inl e
      | Inr y \<Rightarrow>
          (case fold_right_to_left (per_layer_jacobians lin tlg (layers self) x c) of
             Inl e \<Rightarrow> Inl e
           | Inr jac \<Rightarrow> Inr (y, sum3 jac)))"
proof (cases "layers self")
  case Nil
  then show ?thesis
    by (simp add: BlockAutoregressiveNetwork_transform_and_log_abs_det_jacobian_def
        BlockAutoregressiveNetwork_transform_def)
next
  case (Cons l0 rest)
  show ?thesis
  proof (cases "call_layer lin tlg l0 x c")
    case (Inl e)
    then show ?thesis using Cons
      by (simp add: BlockAutoregressiveNetwork_transform_and_log_abs_det_jacobian_def
          BlockAutoregressiveNetwork_transform_def)
  next
    case (Inr r)
    obtain x0 j0 where r: "r = (x0, j0)" by (cases r)
    show ?thesis
    proof (cases "forward_pass lin tlg rest x0 None")
      case (Inl e)
      then show ?thesis using Cons Inr r
        by (simp add: BlockAutoregressiveNetwork_transform_and_log_abs_det_jacobian_def
            BlockAutoregressiveNetwork_transform_def transform_loop_forward_pass
            log_det_3ds_loop_forward_pass)
    next
      case fp: (Inr q)
      obtain y jacs where q: "q = (y, jacs)" by (cases q)
      have pj: "per_layer_jacobians lin tlg (layers self) x c = j0 # jacs"
        using Cons Inr r fp q by (simp add: per_layer_jacobians_def)
      have "logdet_loop (last (j0 # jacs)) (rev (butlast (j0 # jacs))) =
          fold_right_to_left (j0 # jacs)"
        by (rule logdet_loop_fold_right_to_left) simp
      then show ?thesis using Cons Inr r fp q pj
        by (simp add: BlockAutoregressiveNetwork_transform_and_log_abs_det_jacobian_def
            BlockAutoregressiveNetwork_transform_def transform_loop_forward_pass
            log_det_3ds_loop_forward_pass)
    qed
  qed
qed

lemma logmatmulexp_2_0: "logmatmulexp [[[Fin 2]]] [[[Fin 0]]] = Inr [[[Fin 2]]]"
  by (simp add: logmatmulexp_def amax_last_def amax_rows_def cols_def matmul_def
      batch_length_def broadcast_to_def exp_sub_rows_def exp_sub_cols_def matmul2_def
      dot_def fsum_def fsub_def add_shifts_def)

lemma logmatmulexp_2_1: "logmatmulexp [[[Fin 2]]] [[[Fin 1]]] = Inr [[[Fin 3]]]"
  by (simp add: logmatmulexp_def amax_last_def amax_rows_def cols_def matmul_def
      batch_length_def broadcast_to_def exp_sub_rows_def exp_sub_cols_def matmul2_def
      dot_def fsum_def fsub_def add_shifts_def)

lemma log_det_3d_0_1: "log_det_3d [Fin 0] 1 = Inr [[[Fin 0]]]"
  by (simp add: log_det_3d_def set_diagonals_def full3_def reshape2_def)

theorem BlockAutoregressiveNetwork_log_det_witness:
  "BlockAutoregressiveNetwork_transform_and_log_abs_det_jacobian
     (\<lambda>k n bs cd x c. Inr (x, [[[Fin (real k)]]])) (\<lambda>x. map (\<lambda>v. Fin 0) x)
     \<lparr>dim = 1, depth = 1,
      layers = [BlockAutoregressiveLinear (1::nat) 1 (1, 1) 0, Activation (TanhBNAF 1),
                BlockAutoregressiveLinear 2 1 (1, 1) 0],
      cond_dim = 0, block_dim = 1, activation = TanhBNAF 1\<rparr>
     [Fin 0] None = Inr ([Fin 0], Fin 3)"
  using BlockAutoregressiveNetwork_log_det
    [of "\<lambda>k n bs cd x c. Inr (x, [[[Fin (real k)]]])" "\<lambda>x. map (\<lambda>v. Fin 0) x"
        "\<lparr>dim = 1, depth = 1,
          layers = [BlockAutoregressiveLinear (1::nat) 1 (1, 1) 0, Activation (TanhBNAF 1),
                    BlockAutoregressiveLinear 2 1 (1, 1) 0],
          cond_dim = 0, block_dim = 1, activation = TanhBNAF 1\<rparr>" "[Fin 0]" None]
  by (simp add: per_layer_jacobians_def fold_right_to_left_def and_then_def
      logmatmulexp_2_0 logmatmulexp_2_1 log_det_3d_0_1 sum3_def fsum_def)

section \<open>The log-domain product on a row that holds only minus infinity\<close>

text \<open>
  The docstring of \<open>logmatmulexp\<close> calls it a numerically stable version of the
  logarithm of the product of the exponentials. On a row of \<open>x\<close> that holds only \<open>-inf\<close>
  the shift is \<open>-inf\<close>, the shifted row is \<open>-inf - (-inf)\<close>, which is not a number, and
  the result is not a number either. Every operation in the evaluations below is on
  \<open>0\<close>, \<open>1\<close>, \<open>-inf\<close> or \<open>NaN\<close>, where the model computes what the machine format does.
\<close>

lemma logmatmulexp_NInf_0: "logmatmulexp [[[NInf]]] [[[Fin 0]]] = Inr [[[NaN]]]"
  by (simp add: logmatmulexp_def amax_last_def amax_rows_def cols_def matmul_def
      batch_length_def broadcast_to_def exp_sub_rows_def exp_sub_cols_def matmul2_def
      dot_def fsum_def fsub_def add_shifts_def)

lemma reference_NInf_0: "log_matmul_exp_reference [[[NInf]]] [[[Fin 0]]] = Inr [[[NInf]]]"
  by (simp add: log_matmul_exp_reference_def cols_def matmul_def batch_length_def
      broadcast_to_def matmul2_def dot_def fsum_def)

text \<open>
  C1, at \<open>x = [[[-inf]]]\<close> and \<open>y = [[[0]]]\<close>: \<open>logmatmulexp\<close> returns \<open>[[[NaN]]]\<close>, and
  the naive reference \<open>log(exp(x) @ exp(y))\<close> returns \<open>[[[-inf]]]\<close>; the two differ.
\<close>

theorem logmatmulexp_differs_from_reference:
  "logmatmulexp [[[NInf]]] [[[Fin 0]]] = Inr [[[NaN]]] \<and>
   log_matmul_exp_reference [[[NInf]]] [[[Fin 0]]] = Inr [[[NInf]]] \<and>
   logmatmulexp [[[NInf]]] [[[Fin 0]]] \<noteq> log_matmul_exp_reference [[[NInf]]] [[[Fin 0]]]"
  by (simp add: logmatmulexp_NInf_0 reference_NInf_0)

lemma logmatmulexp_identity_toprow:
  "logmatmulexp [[[Fin 0, NInf], [NInf, Fin 0]]] [[[Fin 0, Fin 0], [NInf, NInf]]] =
     Inr [[[Fin 0, Fin 0], [NInf, NInf]]]"
  by (simp add: logmatmulexp_def amax_last_def amax_rows_def cols_def matmul_def
      batch_length_def broadcast_to_def exp_sub_rows_def exp_sub_cols_def matmul2_def
      dot_def fsum_def fsub_def add_shifts_def upt_rec)

lemma logmatmulexp_toprow_identity:
  "logmatmulexp [[[Fin 0, Fin 0], [NInf, NInf]]] [[[Fin 0, NInf], [NInf, Fin 0]]] =
     Inr [[[Fin 0, Fin 0], [NaN, NaN]]]"
  by (simp add: logmatmulexp_def amax_last_def amax_rows_def cols_def matmul_def
      batch_length_def broadcast_to_def exp_sub_rows_def exp_sub_cols_def matmul2_def
      dot_def fsum_def fsub_def add_shifts_def upt_rec)

lemma logmatmulexp_identity_nan:
  "logmatmulexp [[[Fin 0, NInf], [NInf, Fin 0]]] [[[Fin 0, Fin 0], [NaN, NaN]]] =
     Inr [[[NaN, NaN], [NaN, NaN]]]"
  by (simp add: logmatmulexp_def amax_last_def amax_rows_def cols_def matmul_def
      batch_length_def broadcast_to_def exp_sub_rows_def exp_sub_cols_def matmul2_def
      dot_def fsum_def fsub_def add_shifts_def upt_rec)

lemma reference_identity_toprow:
  "log_matmul_exp_reference [[[Fin 0, NInf], [NInf, Fin 0]]] [[[Fin 0, Fin 0], [NInf, NInf]]] =
     Inr [[[Fin 0, Fin 0], [NInf, NInf]]]"
  by (simp add: log_matmul_exp_reference_def cols_def matmul_def batch_length_def
      broadcast_to_def matmul2_def dot_def fsum_def upt_rec)

lemma reference_toprow_identity:
  "log_matmul_exp_reference [[[Fin 0, Fin 0], [NInf, NInf]]] [[[Fin 0, NInf], [NInf, Fin 0]]] =
     Inr [[[Fin 0, Fin 0], [NInf, NInf]]]"
  by (simp add: log_matmul_exp_reference_def cols_def matmul_def batch_length_def
      broadcast_to_def matmul2_def dot_def fsum_def upt_rec)

text \<open>
  C7, at \<open>A = C = [[[0, -inf], [-inf, 0]]]\<close> (the logarithm of the identity) and
  \<open>B = [[[0, 0], [-inf, -inf]]]\<close>: composing \<open>A\<close> with \<open>B\<close> and the result with \<open>C\<close> gives
  \<open>[[[0, 0], [NaN, NaN]]]\<close>, composing \<open>A\<close> with the composition of \<open>B\<close> and \<open>C\<close> gives
  \<open>[[[NaN, NaN], [NaN, NaN]]]\<close>, and the two differ; under the naive reference both
  groupings give \<open>B\<close>.
\<close>

theorem logmatmulexp_groupings_differ:
  "and_then (logmatmulexp [[[Fin 0, NInf], [NInf, Fin 0]]] [[[Fin 0, Fin 0], [NInf, NInf]]])
     (\<lambda>ab. logmatmulexp ab [[[Fin 0, NInf], [NInf, Fin 0]]]) =
     Inr [[[Fin 0, Fin 0], [NaN, NaN]]] \<and>
   and_then (logmatmulexp [[[Fin 0, Fin 0], [NInf, NInf]]] [[[Fin 0, NInf], [NInf, Fin 0]]])
     (\<lambda>bc. logmatmulexp [[[Fin 0, NInf], [NInf, Fin 0]]] bc) =
     Inr [[[NaN, NaN], [NaN, NaN]]] \<and>
   and_then
     (log_matmul_exp_reference [[[Fin 0, NInf], [NInf, Fin 0]]] [[[Fin 0, Fin 0], [NInf, NInf]]])
     (\<lambda>ab. log_matmul_exp_reference ab [[[Fin 0, NInf], [NInf, Fin 0]]]) =
     Inr [[[Fin 0, Fin 0], [NInf, NInf]]] \<and>
   and_then
     (log_matmul_exp_reference [[[Fin 0, Fin 0], [NInf, NInf]]] [[[Fin 0, NInf], [NInf, Fin 0]]])
     (\<lambda>bc. log_matmul_exp_reference [[[Fin 0, NInf], [NInf, Fin 0]]] bc) =
     Inr [[[Fin 0, Fin 0], [NInf, NInf]]] \<and>
   and_then (logmatmulexp [[[Fin 0, NInf], [NInf, Fin 0]]] [[[Fin 0, Fin 0], [NInf, NInf]]])
     (\<lambda>ab. logmatmulexp ab [[[Fin 0, NInf], [NInf, Fin 0]]]) \<noteq>
   and_then (logmatmulexp [[[Fin 0, Fin 0], [NInf, NInf]]] [[[Fin 0, NInf], [NInf, Fin 0]]])
     (\<lambda>bc. logmatmulexp [[[Fin 0, NInf], [NInf, Fin 0]]] bc)"
  by (simp add: and_then_def logmatmulexp_identity_toprow logmatmulexp_toprow_identity
      logmatmulexp_identity_nan reference_identity_toprow reference_toprow_identity)

end
